theory Spec2Isabelle
  imports Complex_Main "HOL-Library.Word"
begin

section \<open>Values\<close>

text \<open>
  The program computes on numpy float64 arrays. Finite floats are modelled as reals
  (no rounding, no overflow). numpy divides by zero without raising: the quotient is an
  infinity or NaN, and it flows on through the arithmetic. The type \<open>fl\<close> keeps
  these outcomes apart from the finite values.
\<close>

datatype fl = Fin real | PInf | NInf | NaN

text \<open>
  \<open>a / b\<close> on finite floats. The only division whose denominator can be zero is
  \<open>Num / Den\<close> in \<open>optimal_interpolation\<close>, where
  \<open>Den = x + (0.5 * y_meas) ** 2\<close>; a sum with a square is never the float \<open>-0.0\<close>,
  so the sign of an infinite quotient is the sign of the numerator.
\<close>

definition fl_div :: "real \<Rightarrow> real \<Rightarrow> fl" where
  "fl_div a b =
     (if b \<noteq> 0 then Fin (a / b)
      else if a = 0 then NaN
      else if 0 < a then PInf else NInf)"

text \<open>\<open>k * d\<close> with \<open>d\<close> finite.\<close>

fun fl_mul :: "fl \<Rightarrow> real \<Rightarrow> fl" where
  "fl_mul (Fin a) d = Fin (a * d)"
| "fl_mul NaN d = NaN"
| "fl_mul PInf d = (if d = 0 then NaN else if 0 < d then PInf else NInf)"
| "fl_mul NInf d = (if d = 0 then NaN else if 0 < d then NInf else PInf)"

fun fl_add :: "fl \<Rightarrow> fl \<Rightarrow> fl" where
  "fl_add (Fin a) (Fin b) = Fin (a + b)"
| "fl_add NaN _ = NaN"
| "fl_add _ NaN = NaN"
| "fl_add PInf NInf = NaN"
| "fl_add NInf PInf = NaN"
| "fl_add PInf _ = PInf"
| "fl_add _ PInf = PInf"
| "fl_add NInf _ = NInf"
| "fl_add _ NInf = NInf"

text \<open>\<open>abs(a) <= abs(b)\<close>: every comparison with NaN is false.\<close>

fun fl_abs_le :: "fl \<Rightarrow> fl \<Rightarrow> bool" where
  "fl_abs_le NaN _ = False"
| "fl_abs_le _ NaN = False"
| "fl_abs_le (Fin a) (Fin b) = (\<bar>a\<bar> \<le> \<bar>b\<bar>)"
| "fl_abs_le (Fin a) _ = True"
| "fl_abs_le _ (Fin b) = False"
| "fl_abs_le _ _ = True"

text \<open>A float that is neither an infinity nor NaN.\<close>

fun is_finite :: "fl \<Rightarrow> bool" where
  "is_finite (Fin a) = True"
| "is_finite _ = False"

text \<open>
  An element of a neighbourhood item is a Python or numpy scalar: an integer, which can
  index an array, or a float, which cannot.
\<close>

datatype pyval = PyInt int | PyFloat real

fun pynum :: "pyval \<Rightarrow> real" where
  "pynum (PyInt i) = of_int i"
| "pynum (PyFloat x) = x"

datatype error =
    IndexError
  | NotImplementedError "string list" string
  | ZeroDivisionError
  | TypeError
  | ValueError
  | AssertionError nat "int list list"
  | Exception string
  | UndefinedCast

section \<open>Arrays\<close>

text \<open>
  A two-dimensional numpy array: its shape and the list of its rows. The shape is kept
  beside the rows because an array of shape \<open>(0, c)\<close> has no row to read \<open>c\<close> from.
\<close>

datatype 'a ndarray = NDArray (nrows: nat) (ncols: nat) (cells: "'a list list")

definition wf_ndarray :: "'a ndarray \<Rightarrow> bool" where
  "wf_ndarray A =
     (length (cells A) = nrows A \<and> list_all (\<lambda>r. length r = ncols A) (cells A))"

definition size_nd :: "'a ndarray \<Rightarrow> nat" where
  "size_nd A = nrows A * ncols A"

text \<open>\<open>np.zeros(shape)\<close>\<close>

definition zeros :: "nat \<Rightarrow> nat \<Rightarrow> fl ndarray" where
  "zeros r c = NDArray r c (replicate r (replicate c (Fin 0)))"

text \<open>
  Indexing one axis of length \<open>len\<close>: a negative integer counts from the end, an integer
  out of range and a float raise IndexError.
\<close>

fun py_index :: "nat \<Rightarrow> pyval \<Rightarrow> error + nat" where
  "py_index len (PyInt i) =
     (if 0 \<le> i \<and> i < int len then Inr (nat i)
      else if i < 0 \<and> - int len \<le> i then Inr (nat (int len + i))
      else Inl IndexError)"
| "py_index len (PyFloat x) = Inl IndexError"

text \<open>Matrices inside \<open>optimal_interpolation\<close> are lists of rows of reals.\<close>

definition np_transpose :: "'a list list \<Rightarrow> 'a list list" where
  "np_transpose A =
     (case A of [] \<Rightarrow> [] | r # _ \<Rightarrow> map (\<lambda>j. map (\<lambda>row. row ! j) A) [0..<length r])"

definition inner :: "real list \<Rightarrow> real list \<Rightarrow> real" where
  "inner u v = sum_list (map2 (*) u v)"

text \<open>\<open>np.dot\<close> of two 2-D arrays: the matrix product.\<close>

definition np_dot :: "real list list \<Rightarrow> real list list \<Rightarrow> real list list" where
  "np_dot A B = map (\<lambda>row. map (\<lambda>col. inner row col) (np_transpose B)) A"

text \<open>\<open>np.outer\<close> flattens both arguments.\<close>

definition np_outer :: "real list list \<Rightarrow> real list list \<Rightarrow> real list list" where
  "np_outer A B = map (\<lambda>a. map (\<lambda>b. a * b) (concat B)) (concat A)"

text \<open>\<open>np.multiply\<close> on two arrays of the same shape.\<close>

definition np_multiply :: "real list list \<Rightarrow> real list list \<Rightarrow> real list list" where
  "np_multiply A B = map2 (map2 (*)) A B"

text \<open>\<open>v.reshape((len(v), 1))\<close>\<close>

definition column :: "'a list \<Rightarrow> 'a list list" where
  "column v = map (\<lambda>x. [x]) v"

section \<open>optimal\_interpolation\<close>

text \<open>
  Line 23: \<open>xb = np.array([itm[2] for itm in back_sel])\<close>. An item shorter than three
  elements raises IndexError.
\<close>

fun get_xb :: "pyval list list \<Rightarrow> error + real list" where
  "get_xb [] = Inr []"
| "get_xb (itm # rest) =
     (if length itm \<le> 2 then Inl IndexError
      else case get_xb rest of
             Inl e \<Rightarrow> Inl e
           | Inr xs \<Rightarrow> Inr (pynum (itm ! 2) # xs))"

definition supported_functions :: "string list" where
  "supported_functions = [''mean'']"

text \<open>Line 27.\<close>

definition oi_R :: "real \<Rightarrow> real" where
  "oi_R y_meas = (0.5 * y_meas) ^ 2"

text \<open>
  Lines 39 to 41, on the column \<open>xb\<close> of shape \<open>(n, 1)\<close>. Python's \<open>sum\<close> adds the rows,
  so \<open>H\<close> has shape \<open>(1,)\<close>; \<open>Hdot\<close> has shape \<open>(1, n)\<close>.
\<close>

definition oi_H :: "real list list \<Rightarrow> real list" where
  "oi_H xb = [sum_list (concat xb) / real (length xb)]"

definition oi_Hdot :: "real list list \<Rightarrow> real list list" where
  "oi_Hdot xb = map (map (\<lambda>h. h * 1 / real (length xb))) [replicate (length xb) 1]"

text \<open>
  Lines 45 to 49. The draws of \<open>random.uniform(0, 0.5)\<close> are a parameter of the model:
  \<open>draws k\<close> is the \<open>k\<close>-th draw of the call.
\<close>

definition oi_err :: "(nat \<Rightarrow> real) \<Rightarrow> real list list \<Rightarrow> real list list" where
  "oi_err draws xb = column (map draws [0..<length xb])"

definition oi_eb :: "(nat \<Rightarrow> real) \<Rightarrow> real list list \<Rightarrow> real list list" where
  "oi_eb draws xb = np_multiply xb (oi_err draws xb)"

definition oi_Pb :: "real list list \<Rightarrow> real list list" where
  "oi_Pb eb = np_outer eb (np_transpose eb)"

text \<open>
  Lines 57 to 61. \<open>Den\<close> has shape \<open>(1, 1)\<close>; the division broadcasts it over the
  column \<open>Num\<close>.
\<close>

definition oi_Num :: "real list list \<Rightarrow> real list list \<Rightarrow> real list list" where
  "oi_Num Pb Hdot = np_dot Pb (np_transpose Hdot)"

definition oi_Den :: "real list list \<Rightarrow> real list list \<Rightarrow> real \<Rightarrow> real list list" where
  "oi_Den Hdot Num R = map (map (\<lambda>d. d + R)) (np_dot Hdot Num)"

definition oi_K :: "real list list \<Rightarrow> real list list \<Rightarrow> real \<Rightarrow> fl list list" where
  "oi_K Pb Hdot R =
     (let Num = oi_Num Pb Hdot;
          Den = oi_Den Hdot Num R
      in map (map (\<lambda>x. fl_div x (hd (hd Den)))) Num)"

text \<open>Line 65: \<open>xa = xb + (K * (y_meas - H))\<close>, shapes \<open>(n, 1)\<close>, \<open>(n, 1)\<close> and \<open>(1,)\<close>.\<close>

definition oi_xa :: "real list list \<Rightarrow> fl list list \<Rightarrow> real \<Rightarrow> real list \<Rightarrow> fl list list" where
  "oi_xa xb K y_meas H =
     map2 (map2 (\<lambda>x k. fl_add (Fin x) (fl_mul k (y_meas - hd H)))) xb K"

text \<open>
  Lines 23 to 65: the analysis column, or the exception raised on the way. With an empty
  \<open>back_sel\<close>, \<open>sum(xb) / len(xb)\<close> is the Python division \<open>0 / 0\<close>. The list of
  supported functions holds \<open>mean\<close> alone, so the branch that leaves \<open>H\<close> and \<open>Hdot\<close>
  at \<open>None\<close> is never taken. The shape test on \<open>Pb\<close> (lines 50 to 54) only prints
  and is left out.
\<close>

definition analysis :: "(nat \<Rightarrow> real) \<Rightarrow> real \<Rightarrow> pyval list list \<Rightarrow> string \<Rightarrow> error + fl list list" where
  "analysis draws y_meas back_sel map_func =
     (case get_xb back_sel of
        Inl e \<Rightarrow> Inl e
      | Inr v \<Rightarrow>
          (let xb = column v; R = oi_R y_meas in
           if map_func \<notin> set supported_functions
           then Inl (NotImplementedError supported_functions map_func)
           else if map_func = ''mean''
           then (if length xb = 0 then Inl ZeroDivisionError
                 else (let H = oi_H xb;
                           Hdot = oi_Hdot xb;
                           Pb = oi_Pb (oi_eb draws xb);
                           K = oi_K Pb Hdot R
                       in Inr (oi_xa xb K y_meas H)))
           else Inl TypeError))"

text \<open>Line 71: \<open>syn_prod[m][n] += v\<close>.\<close>

definition add_at :: "fl ndarray \<Rightarrow> pyval \<Rightarrow> pyval \<Rightarrow> fl \<Rightarrow> error + fl ndarray" where
  "add_at syn_prod m n v =
     (case py_index (nrows syn_prod) m of
        Inl e \<Rightarrow> Inl e
      | Inr i \<Rightarrow>
          (case py_index (ncols syn_prod) n of
             Inl e \<Rightarrow> Inl e
           | Inr j \<Rightarrow>
               Inr (NDArray (nrows syn_prod) (ncols syn_prod)
                     ((cells syn_prod)[i := (cells syn_prod ! i)[j := fl_add (cells syn_prod ! i ! j) v]]))))"

text \<open>Lines 68 to 71: the loop over \<open>range(0, len(back_sel))\<close>.\<close>

fun load :: "fl ndarray \<Rightarrow> pyval list list \<Rightarrow> fl list list \<Rightarrow> nat list \<Rightarrow> error + fl ndarray" where
  "load syn_prod back_sel xa [] = Inr syn_prod"
| "load syn_prod back_sel xa (item # rest) =
     (case add_at syn_prod (back_sel ! item ! 0) (back_sel ! item ! 1) (hd (xa ! item)) of
        Inl e \<Rightarrow> Inl e
      | Inr syn_prod' \<Rightarrow> load syn_prod' back_sel xa rest)"

definition optimal_interpolation ::
  "(nat \<Rightarrow> real) \<Rightarrow> fl ndarray \<Rightarrow> real \<Rightarrow> pyval list list \<Rightarrow> string \<Rightarrow> error + fl ndarray" where
  "optimal_interpolation draws syn_prod y_meas back_sel map_func =
     (case analysis draws y_meas back_sel map_func of
        Inl e \<Rightarrow> Inl e
      | Inr xa \<Rightarrow> load syn_prod back_sel xa [0..<length back_sel])"

section \<open>processor\<close>

text \<open>Sequencing of steps that can raise.\<close>

definition and_then :: "error + 'a \<Rightarrow> ('a \<Rightarrow> error + 'b) \<Rightarrow> error + 'b" where
  "and_then m f = (case m of Inl e \<Rightarrow> Inl e | Inr x \<Rightarrow> f x)"

fun collect :: "('a \<Rightarrow> error + 'b) \<Rightarrow> 'a list \<Rightarrow> error + 'b list" where
  "collect f [] = Inr []"
| "collect f (x # xs) =
     (case f x of
        Inl e \<Rightarrow> Inl e
      | Inr y \<Rightarrow> (case collect f xs of Inl e \<Rightarrow> Inl e | Inr ys \<Rightarrow> Inr (y # ys)))"

text \<open>\<open>A[a, b]\<close> with indices that are not negative.\<close>

definition nd_get :: "'a ndarray \<Rightarrow> nat \<Rightarrow> nat \<Rightarrow> error + 'a" where
  "nd_get A a b =
     (if a < nrows A \<and> b < ncols A then Inr (cells A ! a ! b) else Inl IndexError)"

definition nd_map :: "('a \<Rightarrow> 'b) \<Rightarrow> 'a ndarray \<Rightarrow> 'b ndarray" where
  "nd_map f A = NDArray (nrows A) (ncols A) (map (map f) (cells A))"

text \<open>\<open>np.ndindex((r, c))\<close>: the index pairs in row-major order.\<close>

definition ndindex :: "nat \<Rightarrow> nat \<Rightarrow> (nat \<times> nat) list" where
  "ndindex r c = concat (map (\<lambda>a. map (\<lambda>b. (a, b)) [0..<c]) [0..<r])"

text \<open>
  numpy broadcasting of two 2-D arrays: along each axis the lengths are equal or one of
  them is 1, and an axis of length 1 is read at index 0 throughout. A 1-D array of length
  \<open>N\<close> broadcasts as an array of shape \<open>(1, N)\<close>.
\<close>

definition bdim :: "nat \<Rightarrow> nat \<Rightarrow> error + nat" where
  "bdim a b =
     (if a = b then Inr a else if a = 1 then Inr b else if b = 1 then Inr a
      else Inl ValueError)"

definition bidx :: "nat \<Rightarrow> nat \<Rightarrow> nat" where
  "bidx d i = (if d = 1 then 0 else i)"

definition broadcast :: "('a \<Rightarrow> 'b \<Rightarrow> 'c) \<Rightarrow> 'a ndarray \<Rightarrow> 'b ndarray \<Rightarrow> error + 'c ndarray" where
  "broadcast f A B =
     and_then (bdim (nrows A) (nrows B)) (\<lambda>r.
     and_then (bdim (ncols A) (ncols B)) (\<lambda>c.
       Inr (NDArray r c
              (map (\<lambda>i. map (\<lambda>j. f (cells A ! bidx (nrows A) i ! bidx (ncols A) j)
                                    (cells B ! bidx (nrows B) i ! bidx (ncols B) j))
                          [0..<c])
                   [0..<r]))))"

text \<open>\<open>np.round\<close>: to the nearest integer, a tie to the even one.\<close>

definition np_round :: "real \<Rightarrow> int" where
  "np_round x =
     (let f = \<lfloor>x\<rfloor> in
      if x - of_int f < 1 / 2 then f
      else if 1 / 2 < x - of_int f then f + 1
      else if even f then f else f + 1)"

text \<open>
  Lines 102 and 103: \<open>np.int32(np.round(s / c))\<close> on the coordinate arrays, element by
  element under broadcasting. numpy does not define the cast to int32 of an infinity, of
  NaN (a zero coarse coordinate) or of a value outside the int32 range; the model stops
  there with \<open>UndefinedCast\<close>.
\<close>

definition int32_ok :: "real \<times> real \<Rightarrow> bool" where
  "int32_ok p =
     (snd p \<noteq> 0 \<and> - (2 ^ 31) \<le> np_round (fst p / snd p) \<and> np_round (fst p / snd p) < 2 ^ 31)"

definition to_int32 :: "real \<times> real \<Rightarrow> 32 word" where
  "to_int32 p = word_of_int (np_round (fst p / snd p))"

definition ratio :: "real ndarray \<Rightarrow> real ndarray \<Rightarrow> error + 32 word ndarray" where
  "ratio s c =
     and_then (broadcast (\<lambda>x y. (x, y)) s c) (\<lambda>Q.
       if list_all (list_all int32_ok) (cells Q) then Inr (nd_map to_int32 Q)
       else Inl UndefinedCast)"

text \<open>
  Lines 112 and 115: one record \<open>[lat, lon, value]\<close> for each index of the value array, in
  the order of \<open>np.ndindex\<close>. The coordinate arrays are read at the indices of the value
  array. \<open>np.array\<close> of the list has shape \<open>(N, 3)\<close>, and shape \<open>(0,)\<close> when the list is
  empty.
\<close>

definition mapping_array :: "real ndarray \<Rightarrow> real ndarray \<Rightarrow> real ndarray \<Rightarrow> error + real list list" where
  "mapping_array lat lon val =
     collect (\<lambda>(a, b).
        and_then (nd_get lat a b) (\<lambda>la.
        and_then (nd_get lon a b) (\<lambda>lo.
        and_then (nd_get val a b) (\<lambda>v. Inr [la, lo, v]))))
       (ndindex (nrows val) (ncols val))"

text \<open>
  Lines 117 to 127. The body of the \<open>try\<close> raises when a record count differs from the
  array size; the handler catches every \<open>Exception\<close>, prints it with the counts, and
  the function goes on.
\<close>

datatype line = Text string | Counts string nat nat

definition size_test :: "nat \<Rightarrow> nat \<Rightarrow> nat \<Rightarrow> nat \<Rightarrow> error + unit" where
  "size_test len_smooth size_smooth len_coarse size_coarse =
     (if \<not> len_smooth = size_smooth
      then Inl (Exception ''Something was wrong in the formation of the mapping array: map_smooth.size != smooth.size'')
      else if \<not> len_coarse = size_coarse
      then Inl (Exception ''Something was wrong in the formation of the mapping array: map_coarse.size != coarse.size'')
      else Inr ())"

definition size_check :: "nat \<Rightarrow> nat \<Rightarrow> nat \<Rightarrow> nat \<Rightarrow> error + line list" where
  "size_check len_smooth size_smooth len_coarse size_coarse =
     (case size_test len_smooth size_smooth len_coarse size_coarse of
        Inl (Exception e) \<Rightarrow>
          Inr [Text e,
               Counts ''len(map_coarse), coarse.size'' len_coarse size_coarse,
               Counts ''len(map_smooth), smooth.size'' len_smooth size_smooth]
      | Inl e \<Rightarrow> Inl e
      | Inr _ \<Rightarrow> Inr [])"

text \<open>\<open>map_smooth[:, k]\<close>: a 1-D array; on the array of shape \<open>(0,)\<close> it raises.\<close>

definition column_of :: "real list list \<Rightarrow> nat \<Rightarrow> error + real ndarray" where
  "column_of m k =
     (if m = [] then Inl IndexError
      else Inr (NDArray 1 (length m) [map (\<lambda>r. r ! k) m]))"

text \<open>
  Lines 132 to 137: the four comparisons, each broadcast against the ratio array, joined
  by \<open>&\<close>. \<open>lat_ratio / 2\<close> is a true division of the int32 entries.
\<close>

definition half :: "32 word \<Rightarrow> real" where
  "half w = real_of_int (sint w) / 2"

definition mask :: "real list list \<Rightarrow> real list \<Rightarrow> 32 word ndarray \<Rightarrow> 32 word ndarray \<Rightarrow> error + bool ndarray" where
  "mask map_smooth rec lat_ratio lon_ratio =
     and_then (column_of map_smooth 0) (\<lambda>lats.
     and_then (broadcast (\<lambda>s w. s \<le> rec ! 0 + half w) lats lat_ratio) (\<lambda>c1.
     and_then (broadcast (\<lambda>s w. s \<ge> rec ! 0 - half w) lats lat_ratio) (\<lambda>c2.
     and_then (broadcast (\<and>) c1 c2) (\<lambda>c12.
     and_then (column_of map_smooth 1) (\<lambda>lons.
     and_then (broadcast (\<lambda>s w. s \<le> rec ! 1 + half w) lons lon_ratio) (\<lambda>c3.
     and_then (broadcast (\<and>) c12 c3) (\<lambda>c123.
     and_then (broadcast (\<lambda>s w. s \<ge> rec ! 1 - half w) lons lon_ratio) (\<lambda>c4.
       broadcast (\<and>) c123 c4))))))))"

text \<open>
  \<open>np.where\<close> of a 2-D array returns a tuple of two index arrays: the row indices and the
  column indices of the true entries, in row-major order.
\<close>

definition np_where :: "bool ndarray \<Rightarrow> nat list list" where
  "np_where M =
     (let ps = filter (\<lambda>(i, j). cells M ! i ! j) (ndindex (nrows M) (ncols M))
      in [map fst ps, map snd ps])"

text \<open>\<open>map_smooth[index, 2]\<close> with an array of row indices.\<close>

definition take_values :: "real list list \<Rightarrow> nat list \<Rightarrow> error + real list" where
  "take_values map_smooth index =
     collect (\<lambda>r. if r < length map_smooth then Inr (map_smooth ! r ! 2) else Inl IndexError)
       index"

text \<open>Lines 132 to 139: the list comprehension runs over the tuple of \<open>np.where\<close>.\<close>

definition selected :: "real list list \<Rightarrow> real list \<Rightarrow> 32 word ndarray \<Rightarrow> 32 word ndarray \<Rightarrow> error + real list list" where
  "selected map_smooth rec lat_ratio lon_ratio =
     and_then (mask map_smooth rec lat_ratio lon_ratio) (\<lambda>M.
       collect (take_values map_smooth) (np_where M))"

text \<open>
  Lines 141 and 142: \<open>assert len(selected) == (lat_ratio * lon_ratio)\<close>. The product is
  an int32 array and wraps around; the comparison gives an array of booleans, whose truth
  value exists only when it has exactly one element.
\<close>

definition assert_len :: "nat \<Rightarrow> 32 word ndarray \<Rightarrow> 32 word ndarray \<Rightarrow> error + unit" where
  "assert_len len lat_ratio lon_ratio =
     and_then (broadcast (*) lat_ratio lon_ratio) (\<lambda>P.
       if size_nd P \<noteq> 1 then Inl ValueError
       else if sint (cells P ! 0 ! 0) = int len then Inr ()
       else Inl (AssertionError len (map (map sint) (cells P))))"

text \<open>
  Lines 129 to 145, for the coarse records with the indices \<open>is\<close>. \<open>draws i\<close> holds the
  random draws of the call for record \<open>i\<close>. The arrays of \<open>selected\<close> hold numpy floats.
\<close>

fun cells_loop ::
  "(nat \<Rightarrow> nat \<Rightarrow> real) \<Rightarrow> real list list \<Rightarrow> real list list \<Rightarrow> 32 word ndarray \<Rightarrow> 32 word ndarray \<Rightarrow>
   string \<Rightarrow> string \<Rightarrow> fl ndarray \<Rightarrow> nat list \<Rightarrow> error + fl ndarray" where
  "cells_loop draws map_coarse map_smooth lat_ratio lon_ratio interpolation mapping syne [] = Inr syne"
| "cells_loop draws map_coarse map_smooth lat_ratio lon_ratio interpolation mapping syne (i # rest) =
     and_then (selected map_smooth (map_coarse ! i) lat_ratio lon_ratio) (\<lambda>sel.
     and_then (assert_len (length sel) lat_ratio lon_ratio) (\<lambda>_.
     and_then (if interpolation = ''Optimal Interpolation''
               then optimal_interpolation (draws i) syne (map_coarse ! i ! 2)
                      (map (map PyFloat) sel) mapping
               else Inr syne) (\<lambda>syne'.
       cells_loop draws map_coarse map_smooth lat_ratio lon_ratio interpolation mapping syne' rest)))"

text \<open>
  Lines 100 to 145. The result is the array \<open>syne\<close>; wrapping it with the coordinates
  into an \<open>xr.Dataset\<close> under \<open>varname\<close> (lines 147 to 156) is left out.
\<close>

definition processor ::
  "(nat \<Rightarrow> nat \<Rightarrow> real) \<Rightarrow> real ndarray \<Rightarrow> real ndarray \<Rightarrow> real ndarray \<Rightarrow> real ndarray \<Rightarrow>
   real ndarray \<Rightarrow> real ndarray \<Rightarrow> string \<Rightarrow> string \<Rightarrow> string \<Rightarrow> error + fl ndarray" where
  "processor draws coarse smooth c_lat c_lon s_lat s_lon varname interpolation mapping =
     and_then (ratio s_lat c_lat) (\<lambda>lat_ratio.
     and_then (ratio s_lon c_lon) (\<lambda>lon_ratio.
     and_then (mapping_array c_lat c_lon coarse) (\<lambda>map_coarse.
     and_then (mapping_array s_lat s_lon smooth) (\<lambda>map_smooth.
     and_then (size_check (length map_smooth) (size_nd smooth) (length map_coarse) (size_nd coarse)) (\<lambda>_.
       cells_loop draws map_coarse map_smooth lat_ratio lon_ratio interpolation mapping
         (zeros (nrows smooth) (ncols smooth)) [0..<length map_coarse])))))"

section \<open>The cell an item writes to\<close>

text \<open>
  The cell of an \<open>r \<times> c\<close> grid addressed by the first two elements of a neighbourhood
  item, when both are valid indices.
\<close>

definition target :: "nat \<Rightarrow> nat \<Rightarrow> pyval list \<Rightarrow> (nat \<times> nat) option" where
  "target r c itm =
     (case py_index r (itm ! 0) of
        Inl _ \<Rightarrow> None
      | Inr i \<Rightarrow> (case py_index c (itm ! 1) of Inl _ \<Rightarrow> None | Inr j \<Rightarrow> Some (i, j)))"

section \<open>The formulas of the specification\<close>

text \<open>
  The specification states the estimator on vectors: the gain
  \<open>K = (Pb \<cdot> Hdot\<^sup>T) / (Hdot \<cdot> Pb \<cdot> Hdot\<^sup>T + R)\<close>, every element divided by the scalar
  denominator, the analysis \<open>xa = xb + K * (y - H(xb))\<close>, and the covariance
  \<open>Pb = eb \<otimes> eb\<close>. These definitions follow its words; the theorems compare them with
  the matrix code above.
\<close>

definition spec_gain :: "real list list \<Rightarrow> real list \<Rightarrow> real \<Rightarrow> fl list" where
  "spec_gain Pb Hdot R =
     (let PbHt = map (\<lambda>row. inner row Hdot) Pb;
          den = inner Hdot PbHt + R
      in map (\<lambda>x. fl_div x den) PbHt)"

definition spec_analysis :: "real list \<Rightarrow> fl list \<Rightarrow> real \<Rightarrow> real \<Rightarrow> fl list" where
  "spec_analysis xb K y Hxb = map2 (\<lambda>x k. fl_add (Fin x) (fl_mul k (y - Hxb))) xb K"

definition spec_Pb :: "real list \<Rightarrow> real list list" where
  "spec_Pb eb = map (\<lambda>a. map (\<lambda>b. a * b) eb) eb"

section \<open>Properties of the estimator\<close>

lemma np_transpose_row: "np_transpose [r] = column r"
  by (auto simp: np_transpose_def column_def intro: nth_equalityI)

lemma np_transpose_column: "v \<noteq> [] \<Longrightarrow> np_transpose (column v) = [v]"
  by (cases v) (simp_all add: np_transpose_def column_def comp_def)

lemma concat_column: "concat (column v) = v"
  by (induction v) (simp_all add: column_def)

lemma length_column: "length (column v) = length v"
  by (simp add: column_def)

lemma np_dot_column: "h \<noteq> [] \<Longrightarrow> np_dot A (column h) = column (map (\<lambda>row. inner row h) A)"
  by (simp add: np_dot_def np_transpose_column) (simp add: column_def)

lemma np_dot_row_column: "v \<noteq> [] \<Longrightarrow> np_dot [h] (column v) = [[inner h v]]"
  by (simp add: np_dot_def np_transpose_column)

lemma oi_K_spec:
  assumes "Hdot \<noteq> []" "Pb \<noteq> []"
  shows "oi_K Pb [Hdot] R = column (spec_gain Pb Hdot R)"
proof -
  let ?num = "map (\<lambda>row. inner row Hdot) Pb"
  have num: "oi_Num Pb [Hdot] = column ?num"
    using assms by (simp add: oi_Num_def np_transpose_row np_dot_column)
  have den: "oi_Den [Hdot] (column ?num) R = [[inner Hdot ?num + R]]"
    using assms by (simp add: oi_Den_def np_dot_row_column)
  show ?thesis
    by (simp add: oi_K_def num den Let_def spec_gain_def) (simp add: column_def)
qed

lemma oi_xa_spec:
  "oi_xa (column xb) (column K) y [h] = column (spec_analysis xb K y h)"
  by (simp add: oi_xa_def spec_analysis_def column_def zip_map_map split_def)

lemma length_spec_gain: "length (spec_gain Pb Hdot R) = length Pb"
  by (simp add: spec_gain_def Let_def)

lemma length_spec_analysis: "length (spec_analysis xb K y h) = min (length xb) (length K)"
  by (simp add: spec_analysis_def)

lemma oi_H_column: "oi_H (column xb) = [sum_list xb / real (length xb)]"
  by (simp add: oi_H_def concat_column length_column)

lemma oi_Hdot_column: "oi_Hdot (column xb) = [replicate (length xb) (1 / real (length xb))]"
  by (simp add: oi_Hdot_def length_column)

lemma oi_eb_column: "oi_eb draws (column xb) = column (map2 (*) xb (map draws [0..<length xb]))"
  by (auto simp: oi_eb_def oi_err_def np_multiply_def column_def intro!: nth_equalityI)

lemma oi_Pb_column: "eb \<noteq> [] \<Longrightarrow> oi_Pb (column eb) = spec_Pb eb"
  by (simp add: oi_Pb_def np_outer_def np_transpose_column concat_column spec_Pb_def)

lemma get_xb_length: "get_xb back_sel = Inr xb \<Longrightarrow> length xb = length back_sel"
  by (induction back_sel arbitrary: xb) (auto split: if_splits sum.splits)

lemma column_eq_Nil: "column v = [] \<longleftrightarrow> v = []"
  by (simp add: column_def)

lemma analysis_mean:
  assumes "get_xb back_sel = Inr xb" "back_sel \<noteq> []"
  shows "analysis draws y back_sel ''mean'' =
           Inr (oi_xa (column xb)
                  (oi_K (oi_Pb (oi_eb draws (column xb))) (oi_Hdot (column xb)) (oi_R y))
                  y (oi_H (column xb)))"
  using assms get_xb_length [OF assms(1)]
  by (auto simp: analysis_def supported_functions_def Let_def column_eq_Nil)

lemma inner_scale_left: "inner (map (\<lambda>b. c * b) u) v = c * inner u v"
proof (induction u arbitrary: v)
  case Nil
  then show ?case by (simp add: inner_def)
next
  case (Cons a u)
  then show ?case by (cases v) (simp_all add: inner_def algebra_simps)
qed

lemma inner_scale_right: "inner u (map (\<lambda>a. a * c) v) = inner u v * c"
proof (induction u arbitrary: v)
  case Nil
  then show ?case by (simp add: inner_def)
next
  case (Cons a u)
  then show ?case by (cases v) (simp_all add: inner_def algebra_simps)
qed

lemma inner_commute: "inner u v = inner v u"
proof (induction u arbitrary: v)
  case Nil
  then show ?case by (simp add: inner_def)
next
  case (Cons a u)
  then show ?case by (cases v) (simp_all add: inner_def algebra_simps)
qed

lemma spec_gain_outer:
  "spec_gain (spec_Pb e) Hdot R =
     map (\<lambda>a. fl_div (a * inner e Hdot) ((inner e Hdot)\<^sup>2 + R)) e"
  by (simp add: spec_gain_def spec_Pb_def Let_def comp_def inner_scale_left inner_scale_right
      inner_commute [of Hdot e] power2_eq_square)

text \<open>
  Claim C1. For a neighbourhood vector \<open>xb\<close> of length \<open>n \<ge> 1\<close>, every Jacobian row
  \<open>Hdot\<close>, every \<open>n \<times> n\<close> matrix \<open>Pb\<close> and every observation \<open>y\<close>, the code computes
  \<open>R = (0.5 * y)\<^sup>2\<close>, the gain as the vector \<open>Pb \<cdot> Hdot\<^sup>T\<close> divided elementwise by the
  scalar \<open>Hdot \<cdot> Pb \<cdot> Hdot\<^sup>T + R\<close>, and the analysis \<open>xb + K * (y - H)\<close>, which has
  length \<open>n\<close>. Run on a neighbourhood whose values are \<open>xb\<close>, with the mean operator, the
  function returns that analysis for \<open>Pb = eb \<otimes> eb\<close>, \<open>Hdot = (1/n, \<dots>, 1/n)\<close> and
  \<open>H(xb)\<close> the average of \<open>xb\<close>.
\<close>

theorem oi_gain_and_analysis:
  assumes "1 \<le> length xb" "length Hdot = length xb" "length Pb = length xb"
    and "list_all (\<lambda>r. length r = length xb) Pb"
  shows "oi_R y = (0.5 * y)\<^sup>2
       \<and> oi_K Pb [Hdot] (oi_R y) = column (spec_gain Pb Hdot ((0.5 * y)\<^sup>2))
       \<and> oi_xa (column xb) (oi_K Pb [Hdot] (oi_R y)) y [h]
           = column (spec_analysis xb (spec_gain Pb Hdot ((0.5 * y)\<^sup>2)) y h)
       \<and> length (oi_xa (column xb) (oi_K Pb [Hdot] (oi_R y)) y [h]) = length xb
       \<and> (\<forall>draws back_sel. get_xb back_sel = Inr xb \<longrightarrow>
            analysis draws y back_sel ''mean'' =
              Inr (column (spec_analysis xb
                    (spec_gain (spec_Pb (map2 (*) xb (map draws [0..<length xb])))
                       (replicate (length xb) (1 / real (length xb))) ((0.5 * y)\<^sup>2))
                    y (sum_list xb / real (length xb)))))"
proof -
  have ne: "xb \<noteq> []" "Hdot \<noteq> []" "Pb \<noteq> []"
    using assms by auto
  have R: "oi_R y = (0.5 * y)\<^sup>2"
    by (simp add: oi_R_def)
  have K: "oi_K Pb [Hdot] (oi_R y) = column (spec_gain Pb Hdot ((0.5 * y)\<^sup>2))"
    using ne by (simp add: oi_K_spec R)
  have xa: "oi_xa (column xb) (oi_K Pb [Hdot] (oi_R y)) y [h]
          = column (spec_analysis xb (spec_gain Pb Hdot ((0.5 * y)\<^sup>2)) y h)"
    by (simp only: K oi_xa_spec)
  have len: "length (oi_xa (column xb) (oi_K Pb [Hdot] (oi_R y)) y [h]) = length xb"
    using assms by (simp add: xa length_column length_spec_analysis length_spec_gain)
  have top: "analysis draws y back_sel ''mean'' =
              Inr (column (spec_analysis xb
                    (spec_gain (spec_Pb (map2 (*) xb (map draws [0..<length xb])))
                       (replicate (length xb) (1 / real (length xb))) ((0.5 * y)\<^sup>2))
                    y (sum_list xb / real (length xb))))"
    if g: "get_xb back_sel = Inr xb" for draws back_sel
  proof -
    have bs: "back_sel \<noteq> []"
      using get_xb_length [OF g] ne by auto
    let ?eb = "map2 (*) xb (map draws [0..<length xb])"
    have eb: "?eb \<noteq> []"
      using ne by (cases xb) (simp_all add: upt_rec)
    have Pb': "oi_Pb (oi_eb draws (column xb)) = spec_Pb ?eb"
      by (simp only: oi_eb_column oi_Pb_column [OF eb])
    have sp: "spec_Pb ?eb \<noteq> []"
      using eb by (simp add: spec_Pb_def)
    have rp: "replicate (length xb) (1 / real (length xb)) \<noteq> []"
      using ne by simp
    show ?thesis
      by (simp only: analysis_mean [OF g bs] Pb' oi_Hdot_column oi_H_column
          oi_K_spec [OF rp sp] oi_xa_spec R)
  qed
  from R K xa len top show ?thesis by blast
qed


lemmas oi_defs =
  optimal_interpolation_def analysis_def supported_functions_def column_def oi_R_def oi_H_def
  oi_Hdot_def oi_Pb_def oi_eb_def oi_err_def oi_K_def oi_Num_def oi_Den_def oi_xa_def
  np_dot_def np_transpose_def np_outer_def np_multiply_def inner_def fl_div_def add_at_def
  zeros_def

text \<open>
  Claim C1, witness: two background values, the identity as \<open>Pb\<close>, \<open>y = 4\<close>.
\<close>

theorem oi_gain_and_analysis_witness:
  "oi_R 4 = 4
   \<and> oi_K [[1, 0], [0, 1]] [[1/2, 1/2]] (oi_R 4) = [[Fin (1/9)], [Fin (1/9)]]
   \<and> oi_xa (column [1, 3]) (oi_K [[1, 0], [0, 1]] [[1/2, 1/2]] (oi_R 4)) 4 [2]
       = [[Fin (11/9)], [Fin (29/9)]]
   \<and> length (oi_xa (column [1, 3]) (oi_K [[1, 0], [0, 1]] [[1/2, 1/2]] (oi_R 4)) 4 [2]) = 2
   \<and> analysis (\<lambda>_. 1/2) 4 [[PyInt 0, PyInt 0, PyFloat 1], [PyInt 1, PyInt 1, PyFloat 3]] ''mean''
       = Inr [[Fin (6/5)], [Fin (18/5)]]"
proof -
  have g: "get_xb [[PyInt 0, PyInt 0, PyFloat 1], [PyInt 1, PyInt 1, PyFloat 3]] = Inr [1, 3]"
    by simp
  have e: "[0..<2] = [0, Suc 0]"
    by (simp add: upt_rec)
  show ?thesis
    using oi_gain_and_analysis [of "[1, 3]" "[1/2, 1/2]" "[[1, 0], [0, 1]]" 4 2] g
    by (simp add: e oi_defs spec_gain_def spec_analysis_def spec_Pb_def)
qed

lemma inner_replicate_zero: "inner (replicate n 0) v = 0"
proof (induction n arbitrary: v)
  case 0
  then show ?case by (simp add: inner_def)
next
  case (Suc n)
  then show ?case by (cases v) (simp_all add: inner_def)
qed

lemma oi_Den_column:
  "v \<noteq> [] \<Longrightarrow> oi_Den [h] (column v) R = [[inner h v + R]]"
  by (simp add: oi_Den_def np_dot_row_column)

lemma oi_Num_row:
  "h \<noteq> [] \<Longrightarrow> oi_Num Pb [h] = column (map (\<lambda>row. inner row h) Pb)"
  by (simp add: oi_Num_def np_transpose_row np_dot_column)

lemma gain_outer:
  assumes "e \<noteq> []" "h \<noteq> []"
  shows "oi_K (oi_Pb (column e)) [h] R
       = column (map (\<lambda>a. fl_div (a * inner e h) ((inner e h)\<^sup>2 + R)) e)"
proof -
  have "spec_Pb e \<noteq> []"
    using assms by (simp add: spec_Pb_def)
  then show ?thesis
    using assms by (simp add: oi_Pb_column oi_K_spec spec_gain_outer)
qed

lemma zero_draws_eb:
  assumes "\<forall>k<length xb. draws k = 0"
  shows "map2 (*) xb (map draws [0..<length xb]) = replicate (length xb) (0::real)"
  using assms by (auto intro!: nth_equalityI)

lemma spec_Pb_zero: "spec_Pb (replicate n 0) = replicate n (replicate n 0)"
  by (simp add: spec_Pb_def)

lemma spec_analysis_zero_gain:
  "spec_analysis xb (replicate (length xb) (Fin 0)) y h = map Fin xb"
  by (auto simp: spec_analysis_def intro!: nth_equalityI)

lemma column_replicate: "column (replicate n x) = replicate n [x]"
  by (simp add: column_def)

text \<open>
  The write loop of lines 68 to 71, on items whose first two elements are integer indices:
  it adds each analysis element to the cell the item addresses and leaves the other
  cells alone.
\<close>

lemma py_index_less: "py_index len v = Inr i \<Longrightarrow> i < len"
  by (cases v) (auto split: if_splits)

lemma add_at_shape:
  assumes "add_at syn m n v = Inr out"
  shows "nrows out = nrows syn \<and> ncols out = ncols syn"
  using assms by (auto simp: add_at_def split: sum.splits)

lemma add_at_wf:
  assumes "wf_ndarray syn" "add_at syn m n v = Inr out"
  shows "wf_ndarray out"
proof -
  from assms(2) obtain a b where a: "py_index (nrows syn) m = Inr a"
    and b: "py_index (ncols syn) n = Inr b"
    and out: "out = NDArray (nrows syn) (ncols syn)
        ((cells syn)[a := (cells syn ! a)[b := fl_add (cells syn ! a ! b) v]])"
    by (auto simp: add_at_def split: sum.splits)
  have "length r = ncols syn" if "r \<in> set ((cells syn)[a := (cells syn ! a)[b := fl_add (cells syn ! a ! b) v]])" for r
  proof -
    from that have "r = (cells syn ! a)[b := fl_add (cells syn ! a ! b) v] \<or> r \<in> set (cells syn)"
      using set_update_subset_insert by fastforce
    moreover have "a < length (cells syn)"
      using py_index_less [OF a] assms(1) by (simp add: wf_ndarray_def)
    ultimately show ?thesis
      using assms(1) by (auto simp: wf_ndarray_def list_all_iff)
  qed
  then show ?thesis
    using assms(1) by (simp add: out wf_ndarray_def list_all_iff)
qed

lemma add_at_cell:
  assumes "wf_ndarray syn" "add_at syn m n v = Inr out" "i < nrows syn" "j < ncols syn"
  shows "cells out ! i ! j =
           (if target (nrows syn) (ncols syn) [m, n] = Some (i, j)
            then fl_add (cells syn ! i ! j) v else cells syn ! i ! j)"
proof -
  from assms(2) obtain a b where a: "py_index (nrows syn) m = Inr a"
    and b: "py_index (ncols syn) n = Inr b"
    and out: "cells out = (cells syn)[a := (cells syn ! a)[b := fl_add (cells syn ! a ! b) v]]"
    by (auto simp: add_at_def split: sum.splits)
  have la: "a < length (cells syn)" and li: "i < length (cells syn)"
    using py_index_less [OF a] assms(1,3) by (simp_all add: wf_ndarray_def)
  have lb: "b < length (cells syn ! a)" and lj: "j < length (cells syn ! i)"
    using py_index_less [OF b] assms(1,4) la li by (simp_all add: wf_ndarray_def list_all_length)
  have t: "target (nrows syn) (ncols syn) [m, n] = Some (a, b)"
    by (simp add: target_def a b)
  show ?thesis
  proof (cases "a = i")
    case True
    then show ?thesis
      using la lb lj by (simp add: out t nth_list_update)
  next
    case False
    then show ?thesis
      using la li by (simp add: out t)
  qed
qed

lemma target_pair: "target r c itm = target r c [itm ! 0, itm ! 1]"
  by (simp add: target_def split: sum.splits)

lemma load_cell:
  assumes "wf_ndarray syn" "load syn back_sel xa ks = Inr out" "i < nrows syn" "j < ncols syn"
  shows "nrows out = nrows syn \<and> ncols out = ncols syn \<and> wf_ndarray out \<and>
         cells out ! i ! j =
           foldl fl_add (cells syn ! i ! j)
             (map (\<lambda>k. hd (xa ! k))
                (filter (\<lambda>k. target (nrows syn) (ncols syn) (back_sel ! k) = Some (i, j)) ks))"
  using assms
proof (induction ks arbitrary: syn)
  case Nil
  then show ?case by simp
next
  case (Cons k ks)
  from Cons.prems(2) obtain mid where
    mid: "add_at syn (back_sel ! k ! 0) (back_sel ! k ! 1) (hd (xa ! k)) = Inr mid"
    and rest: "load mid back_sel xa ks = Inr out"
    by (auto split: sum.splits)
  have sh: "nrows mid = nrows syn" "ncols mid = ncols syn"
    using add_at_shape [OF mid] by simp_all
  have wf: "wf_ndarray mid"
    by (rule add_at_wf [OF Cons.prems(1) mid])
  have c: "cells mid ! i ! j =
             (if target (nrows syn) (ncols syn) (back_sel ! k) = Some (i, j)
              then fl_add (cells syn ! i ! j) (hd (xa ! k)) else cells syn ! i ! j)"
    using add_at_cell [OF Cons.prems(1) mid Cons.prems(3,4)]
    by (simp add: target_pair [of _ _ "back_sel ! k"])
  from Cons.IH [OF wf rest] Cons.prems(3,4) sh
  have "nrows out = nrows syn \<and> ncols out = ncols syn \<and> wf_ndarray out \<and>
        cells out ! i ! j =
          foldl fl_add (cells mid ! i ! j)
            (map (\<lambda>k. hd (xa ! k))
               (filter (\<lambda>k. target (nrows syn) (ncols syn) (back_sel ! k) = Some (i, j)) ks))"
    by simp
  then show ?case
    by (simp add: c)
qed

lemma and_then_Inr:
  "and_then m f = Inr y \<longleftrightarrow> (\<exists>x. m = Inr x \<and> f x = Inr y)"
  by (cases m) (simp_all add: and_then_def)







lemma np_round_nearest: "\<bar>real_of_int (np_round x) - x\<bar> \<le> 1 / 2"
proof -
  have "of_int \<lfloor>x\<rfloor> \<le> x" "x < of_int \<lfloor>x\<rfloor> + 1"
    by linarith+
  then show ?thesis
    by (auto simp: np_round_def Let_def)
qed

lemma np_round_pos_iff: "0 < np_round x \<longleftrightarrow> 1 / 2 < x"
proof -
  let ?f = "\<lfloor>x\<rfloor>"
  have b: "of_int ?f \<le> x" "x < of_int ?f + 1"
    by linarith+
  consider (lo) "x - of_int ?f < 1 / 2" | (hi) "1 / 2 < x - of_int ?f" | (tie) "x - of_int ?f = 1 / 2"
    by linarith
  then show ?thesis
  proof cases
    case lo
    have "0 < ?f \<longleftrightarrow> 1 / 2 < x"
    proof
      assume "0 < ?f"
      then have "1 \<le> real_of_int ?f" by linarith
      with b show "1 / 2 < x" by linarith
    next
      assume "1 / 2 < x"
      with lo have "0 < real_of_int ?f" by linarith
      then show "0 < ?f" by linarith
    qed
    with lo show ?thesis
      by (simp add: np_round_def Let_def)
  next
    case hi
    have "0 < ?f + 1 \<longleftrightarrow> 1 / 2 < x"
    proof
      assume "0 < ?f + 1"
      then have "0 \<le> real_of_int ?f" by linarith
      with hi show "1 / 2 < x" by linarith
    next
      assume "1 / 2 < x"
      then have "0 \<le> x" by linarith
      then have "0 \<le> ?f" by simp
      then show "0 < ?f + 1" by linarith
    qed
    with hi show ?thesis
      by (simp add: np_round_def Let_def)
  next
    case tie
    have x: "x = real_of_int ?f + 1 / 2"
      using tie by linarith
    have e: "0 < ?f \<longleftrightarrow> 1 / 2 < x"
    proof
      assume "0 < ?f"
      then have "0 < real_of_int ?f" by linarith
      with x show "1 / 2 < x" by linarith
    next
      assume "1 / 2 < x"
      with x have "0 < real_of_int ?f" by linarith
      then show "0 < ?f" by linarith
    qed
    have o: "0 < ?f + 1 \<longleftrightarrow> 0 < ?f" if "odd ?f"
      using that by presburger
    from tie e o show ?thesis
      by (auto simp: np_round_def Let_def)
  qed
qed

lemma bdim_less: "bdim a b = Inr n \<Longrightarrow> i < n \<Longrightarrow> bidx a i < a \<and> bidx b i < b"
  by (auto simp: bdim_def bidx_def split: if_splits)

lemma broadcast_Inr:
  assumes "broadcast f A B = Inr Q"
  shows "bdim (nrows A) (nrows B) = Inr (nrows Q) \<and> bdim (ncols A) (ncols B) = Inr (ncols Q)
       \<and> cells Q = map (\<lambda>i. map (\<lambda>j. f (cells A ! bidx (nrows A) i ! bidx (ncols A) j)
                                         (cells B ! bidx (nrows B) i ! bidx (ncols B) j))
                                [0..<ncols Q]) [0..<nrows Q]"
  using assms by (auto simp: broadcast_def and_then_Inr)

lemma sint_to_int32:
  assumes "int32_ok p"
  shows "sint (to_int32 p) = np_round (fst p / snd p)"
  using assms
  by (simp add: int32_ok_def to_int32_def sint_sbintrunc' signed_take_bit_int_eq_self)

text \<open>
  Claim C4, amended. When the ratio of lines 102 and 103 is computed, its shape is the
  broadcast shape of the two coordinate arrays, no coarse coordinate read is zero, and
  each entry is the quotient of a fine coordinate value by the corresponding coarse
  coordinate value (the raw values, not a spacing) rounded to an integer within 1/2 of
  it. The entry is positive exactly when the quotient exceeds 1/2, so it need not be
  positive.
\<close>

theorem ratio_is_rounded_quotient:
  assumes "ratio s c = Inr L" "i < nrows L" "j < ncols L"
  shows "bdim (nrows s) (nrows c) = Inr (nrows L) \<and> bdim (ncols s) (ncols c) = Inr (ncols L)
       \<and> cells c ! bidx (nrows c) i ! bidx (ncols c) j \<noteq> 0
       \<and> sint (cells L ! i ! j)
           = np_round (cells s ! bidx (nrows s) i ! bidx (ncols s) j
                       / cells c ! bidx (nrows c) i ! bidx (ncols c) j)
       \<and> \<bar>real_of_int (sint (cells L ! i ! j))
            - cells s ! bidx (nrows s) i ! bidx (ncols s) j
              / cells c ! bidx (nrows c) i ! bidx (ncols c) j\<bar> \<le> 1 / 2
       \<and> (0 < sint (cells L ! i ! j)
            \<longleftrightarrow> 1 / 2 < cells s ! bidx (nrows s) i ! bidx (ncols s) j
                          / cells c ! bidx (nrows c) i ! bidx (ncols c) j)"
proof -
  let ?x = "cells s ! bidx (nrows s) i ! bidx (ncols s) j"
  let ?y = "cells c ! bidx (nrows c) i ! bidx (ncols c) j"
  from assms(1) obtain Q where Q: "broadcast (\<lambda>x y. (x, y)) s c = Inr Q"
    and ok: "list_all (list_all int32_ok) (cells Q)" and L: "L = nd_map to_int32 Q"
    by (auto simp: ratio_def and_then_Inr split: if_splits)
  note B = broadcast_Inr [OF Q]
  have sh: "nrows L = nrows Q" "ncols L = ncols Q"
    by (simp_all add: L nd_map_def)
  have q: "cells Q ! i ! j = (?x, ?y)"
    using assms(2,3) sh by (simp add: B)
  from B have "length (cells Q) = length [0..<nrows Q]"
    by (simp only: length_map)
  then have lq: "length (cells Q) = nrows Q"
    by simp
  have lqi: "length (cells Q ! i) = ncols Q"
    using assms(2) sh by (simp add: B)
  have "i < length (cells Q)" "j < length (cells Q ! i)"
    using lq lqi assms(2,3) sh by simp_all
  with ok have "int32_ok (cells Q ! i ! j)"
    unfolding list_all_length by blast
  then have okq: "int32_ok (?x, ?y)"
    by (simp only: q)
  have l: "cells L ! i ! j = to_int32 (?x, ?y)"
    using assms(2,3) sh by (simp add: L nd_map_def B)
  have v: "sint (cells L ! i ! j) = np_round (?x / ?y)"
    using sint_to_int32 [OF okq] by (simp add: l)
  have nz: "?y \<noteq> 0"
    using okq by (simp add: int32_ok_def)
  show ?thesis
    using B nz v np_round_nearest [of "?x / ?y"] np_round_pos_iff [of "?x / ?y"]
    by (simp add: sh)
qed

text \<open>
  Claim C4, witness: the fine latitudes 9.9 and 10.1 over the coarse latitude 10.
\<close>

theorem ratio_is_rounded_quotient_witness:
  "ratio (NDArray 2 2 [[9.9, 9.9], [10.1, 10.1]]) (NDArray 1 1 [[10]])
     = Inr (NDArray 2 2 [[1, 1], [1, 1]])
   \<and> sint (cells (NDArray 2 2 [[1, 1], [1, 1 :: 32 word]]) ! 1 ! 0) = np_round (10.1 / 10)
   \<and> 0 < sint (cells (NDArray 2 2 [[1, 1], [1, 1 :: 32 word]]) ! 1 ! 0)"
proof -
  have r: "ratio (NDArray 2 2 [[9.9, 9.9], [10.1, 10.1]]) (NDArray 1 1 [[10]])
     = Inr (NDArray 2 2 [[1, 1], [1, 1]])"
    by code_simp
  have "sint (cells (NDArray 2 2 [[1, 1], [1, 1 :: 32 word]]) ! 1 ! 0) = np_round (10.1 / 10)"
    using ratio_is_rounded_quotient [OF r, of 1 0] by (simp add: bidx_def)
  then show ?thesis
    using r by simp
qed

text \<open>
  Claim C4, counterexample. A fine coordinate 1 over a coarse coordinate 10 gives the
  ratio 0, and a fine coordinate -25 over 10 gives -2: the ratio is not a positive
  integer.
\<close>

theorem ratio_not_positive_counterexample:
  "ratio (NDArray 1 1 [[1]]) (NDArray 1 1 [[10]]) = Inr (NDArray 1 1 [[0]])
   \<and> ratio (NDArray 1 1 [[- 25]]) (NDArray 1 1 [[10]]) = Inr (NDArray 1 1 [[- 2]])
   \<and> sint (- 2 :: 32 word) = - 2"
  by code_simp

lemma and_then_Inl:
  "and_then m f = Inl e \<longleftrightarrow> m = Inl e \<or> (\<exists>x. m = Inr x \<and> f x = Inl e)"
  by (cases m) (simp_all add: and_then_def)

lemma collect_Inl: "collect f xs = Inl e \<Longrightarrow> \<exists>x\<in>set xs. f x = Inl e"
  by (induction xs) (auto split: sum.splits)

lemma broadcast_Inl: "broadcast f A B = Inl e \<Longrightarrow> e = ValueError"
  by (auto simp: broadcast_def and_then_Inl bdim_def split: if_splits)

lemma column_of_Inl: "column_of m k = Inl e \<Longrightarrow> e = IndexError"
  by (auto simp: column_of_def split: if_splits)

lemma mask_Inl: "mask ms rec la lo = Inl e \<Longrightarrow> e = IndexError \<or> e = ValueError"
  unfolding mask_def and_then_Inl
  by (blast dest: broadcast_Inl column_of_Inl)

lemma take_values_Inl: "take_values ms idx = Inl e \<Longrightarrow> e = IndexError"
  by (auto simp: take_values_def dest!: collect_Inl split: if_splits)

lemma selected_Inl: "selected ms rec la lo = Inl e \<Longrightarrow> e = IndexError \<or> e = ValueError"
  unfolding selected_def and_then_Inl
  by (blast dest: mask_Inl collect_Inl take_values_Inl)

lemma assert_len_Inl:
  "assert_len n la lo = Inl e \<Longrightarrow> e = ValueError \<or> (\<exists>p. e = AssertionError n p)"
  by (auto simp: assert_len_def and_then_Inl dest: broadcast_Inl split: if_splits)

lemma ratio_Inl: "ratio s c = Inl e \<Longrightarrow> e = ValueError \<or> e = UndefinedCast"
  by (auto simp: ratio_def and_then_Inl dest: broadcast_Inl split: if_splits)

lemma nd_get_Inl: "nd_get A a b = Inl e \<Longrightarrow> e = IndexError"
  by (auto simp: nd_get_def split: if_splits)

lemma mapping_array_Inl: "mapping_array lat lon val = Inl e \<Longrightarrow> e = IndexError"
  by (auto simp: mapping_array_def and_then_Inl dest!: collect_Inl dest: nd_get_Inl)

lemma size_check_Inl: "size_check a b c d \<noteq> Inl e"
  by (simp add: size_check_def size_test_def)

lemma cells_loop_skip:
  assumes "interp \<noteq> ''Optimal Interpolation''"
  shows "(cells_loop d mc ms la lo interp mp syne ks = Inr out \<longrightarrow> out = syne)
       \<and> cells_loop d mc ms la lo interp mp syne ks \<noteq> Inl (NotImplementedError names name)"
proof (induction ks)
  case Nil
  then show ?case by simp
next
  case (Cons k ks)
  have "cells_loop d mc ms la lo interp mp syne (k # ks) =
          and_then (selected ms (mc ! k) la lo) (\<lambda>sel.
          and_then (assert_len (length sel) la lo) (\<lambda>_.
            cells_loop d mc ms la lo interp mp syne ks))"
    using assms by (simp add: and_then_def)
  with Cons show ?case
    by (auto simp: and_then_Inr and_then_Inl dest: selected_Inl assert_len_Inl)
qed

lemma processor_skip:
  assumes "interp \<noteq> ''Optimal Interpolation''"
  shows "(processor d coarse smooth c_lat c_lon s_lat s_lon vn interp mp = Inr out
            \<longrightarrow> out = zeros (nrows smooth) (ncols smooth))
       \<and> processor d coarse smooth c_lat c_lon s_lat s_lon vn interp mp
            \<noteq> Inl (NotImplementedError names name)"
  using cells_loop_skip [OF assms]
  by (auto simp: processor_def and_then_Inr and_then_Inl size_check_Inl
      dest: ratio_Inl mapping_array_Inl)

lemma analysis_unsupported:
  assumes "map_func \<noteq> ''mean''"
  shows "analysis draws y back_sel map_func =
           (case get_xb back_sel of
              Inl e \<Rightarrow> Inl e
            | Inr v \<Rightarrow> Inl (NotImplementedError [''mean''] map_func))"
  using assms by (simp add: analysis_def supported_functions_def Let_def split: sum.splits)

text \<open>
  Claim C8, amended. Called with a mapping function other than \<open>mean\<close>,
  \<open>optimal_interpolation\<close> raises NotImplementedError with the list of supported functions,
  \<open>[mean]\<close>, once the neighbourhood values have been read (an item too short raises
  IndexError first) and before anything is written. With an interpolation name other than
  \<open>Optimal Interpolation\<close>, \<open>processor\<close> never raises NotImplementedError: it skips the
  update of every cell, and a run that returns gives the all-zero grid.
\<close>

theorem unsupported_names:
  assumes "map_func \<noteq> ''mean''" "interpolation \<noteq> ''Optimal Interpolation''"
  shows "(\<forall>xb. get_xb back_sel = Inr xb \<longrightarrow>
            optimal_interpolation draws syn_prod y back_sel map_func
              = Inl (NotImplementedError [''mean''] map_func))
       \<and> (\<forall>e. get_xb back_sel = Inl e \<longrightarrow>
            optimal_interpolation draws syn_prod y back_sel map_func = Inl e)
       \<and> (\<forall>res. processor d coarse smooth c_lat c_lon s_lat s_lon varname interpolation mapping
                   = Inr res \<longrightarrow> res = zeros (nrows smooth) (ncols smooth))
       \<and> (\<forall>names name. processor d coarse smooth c_lat c_lon s_lat s_lon varname interpolation mapping
                   \<noteq> Inl (NotImplementedError names name))"
  using processor_skip [OF assms(2)]
  by (simp add: optimal_interpolation_def analysis_unsupported [OF assms(1)])

text \<open>
  Claim C8, witness: the mapping function \<open>median\<close> on a well-formed and on a malformed
  neighbourhood, and the interpolation name \<open>Kriging\<close> on a pair of \<open>1 \<times> 1\<close> grids.
\<close>

theorem unsupported_names_witness:
  "optimal_interpolation (\<lambda>_. 0) (zeros 1 1) 2 [[PyInt 0, PyInt 0, PyFloat 1]] ''median''
     = Inl (NotImplementedError [''mean''] ''median'')
   \<and> optimal_interpolation (\<lambda>_. 0) (zeros 1 1) 2 [[PyFloat 1]] ''median'' = Inl IndexError
   \<and> processor (\<lambda>_ _. 0) (NDArray 1 1 [[2]]) (NDArray 1 1 [[1]]) (NDArray 1 1 [[10]])
        (NDArray 1 1 [[20]]) (NDArray 1 1 [[10]]) (NDArray 1 1 [[40]]) ''chl'' ''Kriging'' ''mean''
     = Inr (zeros 1 1)"
proof -
  have m: "''median'' \<noteq> ''mean''" and k: "''Kriging'' \<noteq> ''Optimal Interpolation''"
    by simp_all
  have g1: "get_xb [[PyInt 0, PyInt 0, PyFloat 1]] = Inr [1]"
    and g2: "get_xb [[PyFloat 1]] = Inl IndexError"
    by simp_all
  have p: "processor (\<lambda>_ _. 0) (NDArray 1 1 [[2]]) (NDArray 1 1 [[1]]) (NDArray 1 1 [[10]])
        (NDArray 1 1 [[20]]) (NDArray 1 1 [[10]]) (NDArray 1 1 [[40]]) ''chl'' ''Kriging'' ''mean''
     = Inr (NDArray 1 1 [[Fin 0]])"
    by code_simp
  note T1 = unsupported_names [OF m k, of "[[PyInt 0, PyInt 0, PyFloat 1]]" "\<lambda>_. 0" "zeros 1 1" 2
      "\<lambda>_ _. 0" "NDArray 1 1 [[2]]" "NDArray 1 1 [[1]]" "NDArray 1 1 [[10]]"
      "NDArray 1 1 [[20]]" "NDArray 1 1 [[10]]" "NDArray 1 1 [[40]]" "''chl''" "''mean''"]
  note T2 = unsupported_names [OF m k, of "[[PyFloat 1]]" "\<lambda>_. 0" "zeros 1 1" 2
      "\<lambda>_ _. 0" "NDArray 1 1 [[2]]" "NDArray 1 1 [[1]]" "NDArray 1 1 [[10]]"
      "NDArray 1 1 [[20]]" "NDArray 1 1 [[10]]" "NDArray 1 1 [[40]]" "''chl''" "''mean''"]
  from T1 g1 have a: "optimal_interpolation (\<lambda>_. 0) (zeros 1 1) 2 [[PyInt 0, PyInt 0, PyFloat 1]] ''median''
     = Inl (NotImplementedError [''mean''] ''median'')"
    by blast
  from T2 g2 have b: "optimal_interpolation (\<lambda>_. 0) (zeros 1 1) 2 [[PyFloat 1]] ''median'' = Inl IndexError"
    by blast
  from T1 p have c: "NDArray 1 1 [[Fin 0]] = zeros (nrows (NDArray 1 1 [[1::real]])) (ncols (NDArray 1 1 [[1::real]]))"
    by blast
  from a b c p show ?thesis
    by simp
qed

text \<open>
  Claim C8, counterexample. With the interpolation name \<open>Kriging\<close> and the mapping
  function \<open>median\<close>, both unrecognised, the run on a pair of \<open>1 \<times> 1\<close> grids returns
  normally and yields an output grid.
\<close>

theorem unsupported_names_counterexample:
  "processor (\<lambda>_ _. 0) (NDArray 1 1 [[2]]) (NDArray 1 1 [[1]]) (NDArray 1 1 [[10]])
        (NDArray 1 1 [[20]]) (NDArray 1 1 [[10]]) (NDArray 1 1 [[40]]) ''chl'' ''Kriging'' ''median''
     = Inr (NDArray 1 1 [[Fin 0]])"
  by code_simp

text \<open>
  Claim C2, the code at the failing inputs. Both grids are \<open>1 \<times> 1\<close>. With the fine cell
  at the coordinates of the coarse cell, the ratio is \<open>(1, 1)\<close> and one record matches, yet
  \<open>selected\<close> has two entries, one for each axis of the mask, and the assertion fails.
  With the fine longitude at 40 the ratio is \<open>(1, 2)\<close> and no record matches, yet the
  assertion passes: the run goes on to an IndexError inside \<open>optimal_interpolation\<close>, or
  to a normal return when the interpolation name is not recognised.
\<close>

theorem assert_counts_axes_not_records:
  "selected [[10, 20, 1]] [10, 20, 2] (NDArray 1 1 [[1]]) (NDArray 1 1 [[1]]) = Inr [[1], [1]]
   \<and> processor (\<lambda>_ _. 0) (NDArray 1 1 [[2]]) (NDArray 1 1 [[1]]) (NDArray 1 1 [[10]])
        (NDArray 1 1 [[20]]) (NDArray 1 1 [[10]]) (NDArray 1 1 [[20]])
        ''chl'' ''Optimal Interpolation'' ''mean''
     = Inl (AssertionError 2 [[1]])
   \<and> selected [[10, 40, 1]] [10, 20, 2] (NDArray 1 1 [[1]]) (NDArray 1 1 [[2]]) = Inr [[], []]
   \<and> processor (\<lambda>_ _. 0) (NDArray 1 1 [[2]]) (NDArray 1 1 [[1]]) (NDArray 1 1 [[10]])
        (NDArray 1 1 [[20]]) (NDArray 1 1 [[10]]) (NDArray 1 1 [[40]])
        ''chl'' ''Optimal Interpolation'' ''mean''
     = Inl IndexError
   \<and> processor (\<lambda>_ _. 0) (NDArray 1 1 [[2]]) (NDArray 1 1 [[1]]) (NDArray 1 1 [[10]])
        (NDArray 1 1 [[20]]) (NDArray 1 1 [[10]]) (NDArray 1 1 [[40]])
        ''chl'' ''Kriging'' ''mean''
     = Inr (NDArray 1 1 [[Fin 0]])"
  by code_simp

text \<open>
  Claim C3, the code at the failing input: one coarse cell at \<open>(10, 20)\<close> over a \<open>2 \<times> 2\<close>
  fine grid. The ratios are \<open>2 \<times> 2\<close> arrays, the comparison of the four fine latitudes
  with them cannot be broadcast, and the run stops with ValueError before any
  neighbourhood is selected. Where the shapes do broadcast (three fine cells in a row)
  each fine record is tested against its own ratio entry, and \<open>selected\<close> holds the values
  at the row indices and at the column indices of the mask.
\<close>

theorem selection_fails_on_two_by_two:
  "ratio (NDArray 2 2 [[9.9, 9.9], [10.1, 10.1]]) (NDArray 1 1 [[10]])
     = Inr (NDArray 2 2 [[1, 1], [1, 1]])
   \<and> ratio (NDArray 2 2 [[19.9, 20.1], [19.9, 20.1]]) (NDArray 1 1 [[20]])
     = Inr (NDArray 2 2 [[1, 1], [1, 1]])
   \<and> selected [[9.9, 19.9, 1], [9.9, 20.1, 1], [10.1, 19.9, 1], [10.1, 20.1, 1]] [10, 20, 2]
        (NDArray 2 2 [[1, 1], [1, 1]]) (NDArray 2 2 [[1, 1], [1, 1]])
     = Inl ValueError
   \<and> processor (\<lambda>_ _. 0) (NDArray 1 1 [[2]]) (NDArray 2 2 [[1, 1], [1, 1]]) (NDArray 1 1 [[10]])
        (NDArray 1 1 [[20]]) (NDArray 2 2 [[9.9, 9.9], [10.1, 10.1]])
        (NDArray 2 2 [[19.9, 20.1], [19.9, 20.1]]) ''chl'' ''Optimal Interpolation'' ''mean''
     = Inl ValueError
   \<and> selected [[10, 20, 1], [10, 20.2, 5], [10, 30, 7]] [10, 20, 2]
        (NDArray 1 3 [[1, 1, 1]]) (NDArray 1 3 [[1, 1, 2]])
     = Inr [[1, 1], [1, 5]]"
  by code_simp

text \<open>
  Claim C5, amended. For a non-empty neighbourhood, when every draw of the error vector
  is zero and the variance \<open>R\<close> computed from the observation is not zero, \<open>Pb\<close> is the
  zero matrix, the gain \<open>K\<close> is the zero vector and the analysis \<open>xa\<close> equals \<open>xb\<close>.
\<close>

theorem zero_error_keeps_background:
  assumes "get_xb back_sel = Inr xb" "back_sel \<noteq> []"
    and "\<forall>k<length back_sel. draws k = 0" and "oi_R y \<noteq> 0"
  shows "oi_Pb (oi_eb draws (column xb)) = replicate (length xb) (replicate (length xb) 0)
       \<and> oi_K (oi_Pb (oi_eb draws (column xb))) (oi_Hdot (column xb)) (oi_R y)
           = replicate (length xb) [Fin 0]
       \<and> analysis draws y back_sel ''mean'' = Inr (column (map Fin xb))"
proof -
  let ?n = "length xb"
  let ?h = "replicate ?n (1 / real ?n)"
  have len: "?n = length back_sel"
    by (rule get_xb_length [OF assms(1)])
  have n: "0 < ?n"
    using len assms(2) by simp
  have z: "replicate ?n (0::real) \<noteq> []" and h: "?h \<noteq> []"
    using n by simp_all
  have "map2 (*) xb (map draws [0..<?n]) = replicate ?n 0"
    using assms(3) len by (intro zero_draws_eb) simp
  then have eb: "oi_eb draws (column xb) = column (replicate ?n 0)"
    by (simp only: oi_eb_column)
  have Pb: "oi_Pb (oi_eb draws (column xb)) = replicate ?n (replicate ?n 0)"
    by (simp only: eb oi_Pb_column [OF z] spec_Pb_zero)
  have K: "oi_K (oi_Pb (oi_eb draws (column xb))) (oi_Hdot (column xb)) (oi_R y)
         = column (replicate ?n (Fin 0))"
    using assms(4)
    by (simp add: eb oi_Hdot_column gain_outer [OF z h] inner_replicate_zero fl_div_def)
  have "analysis draws y back_sel ''mean''
      = Inr (oi_xa (column xb) (column (replicate ?n (Fin 0))) y (oi_H (column xb)))"
    by (simp only: analysis_mean [OF assms(1,2)] K)
  then have xa: "analysis draws y back_sel ''mean'' = Inr (column (map Fin xb))"
    by (simp only: oi_H_column oi_xa_spec spec_analysis_zero_gain)
  from Pb K xa show ?thesis
    by (simp add: column_replicate)
qed

text \<open>
  Claim C5, witness: two background values, zero draws, \<open>y = 4\<close>.
\<close>

theorem zero_error_keeps_background_witness:
  "oi_Pb (oi_eb (\<lambda>_. 0) (column [1, 3])) = [[0, 0], [0, 0]]
   \<and> oi_K (oi_Pb (oi_eb (\<lambda>_. 0) (column [1, 3]))) (oi_Hdot (column [1, 3])) (oi_R 4)
       = [[Fin 0], [Fin 0]]
   \<and> analysis (\<lambda>_. 0) 4 [[PyInt 0, PyInt 0, PyFloat 1], [PyInt 1, PyInt 1, PyFloat 3]] ''mean''
       = Inr [[Fin 1], [Fin 3]]"
proof -
  have e: "[0..<2] = [0, Suc 0]"
    by (simp add: upt_rec)
  have r: "oi_R 4 \<noteq> 0"
    by (simp add: oi_R_def)
  show ?thesis
    using zero_error_keeps_background
      [of "[[PyInt 0, PyInt 0, PyFloat 1], [PyInt 1, PyInt 1, PyFloat 3]]" "[1, 3]" "\<lambda>_. 0" 4] r
    by (simp add: oi_defs e)
qed

text \<open>
  Claim C5, counterexample. With zero draws and \<open>y = 0\<close> the variance \<open>R\<close> is zero and so
  is the denominator: the gain is \<open>0 / 0\<close>, and the analysis is NaN, not \<open>xb\<close>. With an
  empty neighbourhood the function raises ZeroDivisionError.
\<close>

theorem zero_error_zero_observation_counterexample:
  "oi_R 0 = 0
   \<and> oi_K (oi_Pb (oi_eb (\<lambda>_. 0) (column [1]))) (oi_Hdot (column [1])) (oi_R 0) = [[NaN]]
   \<and> analysis (\<lambda>_. 0) 0 [[PyInt 0, PyInt 0, PyFloat 1]] ''mean'' = Inr [[NaN]]
   \<and> analysis (\<lambda>_. 0) 0 [[PyInt 0, PyInt 0, PyFloat 1]] ''mean'' \<noteq> Inr (column (map Fin [1]))
   \<and> analysis (\<lambda>_. 0) 1 [] ''mean'' = Inl ZeroDivisionError"
  by (simp add: oi_defs)

lemma gain_general:
  assumes "Hdot \<noteq> []" "Pb \<noteq> []"
  shows "oi_Den [Hdot] (oi_Num Pb [Hdot]) R
           = [[inner Hdot (map (\<lambda>row. inner row Hdot) Pb) + R]]"
    and "oi_K Pb [Hdot] R
           = column (map (\<lambda>x. fl_div x (inner Hdot (map (\<lambda>row. inner row Hdot) Pb) + R))
                       (map (\<lambda>row. inner row Hdot) Pb))"
proof -
  have ne: "map (\<lambda>row. inner row Hdot) Pb \<noteq> []"
    using assms(2) by simp
  show "oi_Den [Hdot] (oi_Num Pb [Hdot]) R
           = [[inner Hdot (map (\<lambda>row. inner row Hdot) Pb) + R]]"
    by (simp only: oi_Num_row [OF assms(1)] oi_Den_column [OF ne])
  show "oi_K Pb [Hdot] R
           = column (map (\<lambda>x. fl_div x (inner Hdot (map (\<lambda>row. inner row Hdot) Pb) + R))
                       (map (\<lambda>row. inner row Hdot) Pb))"
    by (simp only: oi_K_spec [OF assms] spec_gain_def Let_def)
qed

text \<open>
  Claim C6, amended. For every \<open>Pb\<close> and \<open>Hdot\<close> held fixed: when \<open>0 \<le> R1 \<le> R2\<close> and the
  denominator computed with \<open>R1\<close> is positive, every element of the gain computed with
  \<open>R2\<close> is at most, in absolute value, the element computed with \<open>R1\<close>.
\<close>

theorem gain_decreases_with_R:
  assumes "Hdot \<noteq> []" "Pb \<noteq> []" "0 \<le> R1" "R1 \<le> R2"
    and "0 < hd (hd (oi_Den [Hdot] (oi_Num Pb [Hdot]) R1))"
  shows "list_all2 (list_all2 fl_abs_le) (oi_K Pb [Hdot] R2) (oi_K Pb [Hdot] R1)"
proof -
  let ?num = "map (\<lambda>row. inner row Hdot) Pb"
  let ?D = "inner Hdot ?num"
  from assms(5) have d1: "0 < ?D + R1"
    by (simp add: gain_general(1) [OF assms(1,2)])
  then have d2: "0 < ?D + R2"
    using assms(4) by simp
  have "fl_abs_le (fl_div x (?D + R2)) (fl_div x (?D + R1))" for x
  proof -
    have "\<bar>x\<bar> / (?D + R2) \<le> \<bar>x\<bar> / (?D + R1)"
      using d1 assms(4) by (intro divide_left_mono) (simp_all add: d2)
    then show ?thesis
      using d1 d2 by (simp add: fl_div_def)
  qed
  then show ?thesis
    unfolding gain_general(2) [OF assms(1,2)]
    by (simp add: column_def list_all2_map1 list_all2_map2 list_all2_same)
qed

text \<open>
  Claim C6, witness: \<open>Pb\<close> the outer product of \<open>(1, 3)\<close> with itself, \<open>Hdot = (1/2, 1/2)\<close>,
  \<open>R1 = 1\<close>, \<open>R2 = 4\<close>.
\<close>

theorem gain_decreases_with_R_witness:
  "list_all2 (list_all2 fl_abs_le)
     (oi_K [[1, 3], [3, 9]] [[1/2, 1/2]] 4) (oi_K [[1, 3], [3, 9]] [[1/2, 1/2]] 1)
   \<and> oi_K [[1, 3], [3, 9]] [[1/2, 1/2]] 4 = [[Fin (1/4)], [Fin (3/4)]]
   \<and> oi_K [[1, 3], [3, 9]] [[1/2, 1/2]] 1 = [[Fin (2/5)], [Fin (6/5)]]"
proof -
  have "0 < hd (hd (oi_Den [[1/2, 1/2]] (oi_Num [[1, 3], [3, 9]] [[1/2, 1/2]]) 1))"
    by (simp add: oi_defs)
  then have "list_all2 (list_all2 fl_abs_le)
     (oi_K [[1, 3], [3, 9]] [[1/2, 1/2]] 4) (oi_K [[1, 3], [3, 9]] [[1/2, 1/2]] 1)"
    using gain_decreases_with_R [of "[1/2, 1/2]" "[[1, 3], [3, 9]]" 1 4] by simp
  then show ?thesis
    by (simp add: oi_defs)
qed

text \<open>
  Claim C6, counterexample. With \<open>Pb = 0\<close>, \<open>R1 = 0\<close> and \<open>R2 = 1\<close> the gain at \<open>R1\<close> is
  \<open>0 / 0\<close>, which is NaN, and no number is less than or equal to NaN. With a denominator
  that is negative at \<open>R1\<close> (here \<open>-3 + 1\<close>) and nearer to zero at \<open>R2\<close>, the gain grows
  from 3/2 to 3.
\<close>

theorem gain_zero_denominator_counterexample:
  "\<not> list_all2 (list_all2 fl_abs_le)
       (oi_K (oi_Pb (column [0])) [[1]] 1) (oi_K (oi_Pb (column [0])) [[1]] 0)
   \<and> oi_K (oi_Pb (column [0])) [[1]] 1 = [[Fin 0]]
   \<and> oi_K (oi_Pb (column [0])) [[1]] 0 = [[NaN]]
   \<and> \<not> list_all2 (list_all2 fl_abs_le) (oi_K [[- 3]] [[1]] 2) (oi_K [[- 3]] [[1]] 1)
   \<and> oi_Den [[1]] (oi_Num [[- 3]] [[1]]) 1 = [[- 2]]
   \<and> oi_K [[- 3]] [[1]] 2 = [[Fin 3]]
   \<and> oi_K [[- 3]] [[1]] 1 = [[Fin (3/2)]]"
  by (simp add: oi_defs)

lemma fl_div_zero_nonfinite: "\<not> is_finite (fl_div x 0)"
  by (simp add: fl_div_def)

lemma nonfinite_step: "\<not> is_finite k \<Longrightarrow> \<not> is_finite (fl_add (Fin x) (fl_mul k d))"
  by (cases k) simp_all

lemma list_all_column: "list_all (list_all Q) (column v) = list_all Q v"
  by (induction v) (simp_all add: column_def)

lemma spec_analysis_nonfinite:
  assumes "list_all (\<lambda>k. \<not> is_finite k) K"
  shows "list_all (\<lambda>v. \<not> is_finite v) (spec_analysis xb K y h)"
  using assms
  by (auto simp: spec_analysis_def list_all_iff dest!: set_zip_rightD)
    (metis nonfinite_step)

text \<open>
  Claim C7, amended. For every \<open>Pb\<close>, \<open>Hdot\<close> and \<open>R\<close> whose denominator
  \<open>Hdot \<cdot> Pb \<cdot> Hdot\<^sup>T + R\<close> is zero, the code raises nothing: every element of the gain is
  an infinity or NaN, the analysis has the length of \<open>xb\<close> and its every element is an
  infinity or NaN, and that analysis is what the function computes and returns.
\<close>

theorem zero_denominator_gives_nonfinite:
  assumes "Hdot \<noteq> []" "Pb \<noteq> []" "length xb = length Pb"
    and "oi_Den [Hdot] (oi_Num Pb [Hdot]) R = [[0]]"
  shows "list_all (list_all (\<lambda>k. \<not> is_finite k)) (oi_K Pb [Hdot] R)
       \<and> length (oi_K Pb [Hdot] R) = length Pb
       \<and> list_all (list_all (\<lambda>v. \<not> is_finite v)) (oi_xa (column xb) (oi_K Pb [Hdot] R) y [h])
       \<and> length (oi_xa (column xb) (oi_K Pb [Hdot] R) y [h]) = length xb
       \<and> (\<forall>draws back_sel.
            get_xb back_sel = Inr xb \<and> Pb = oi_Pb (oi_eb draws (column xb))
            \<and> [Hdot] = oi_Hdot (column xb) \<and> R = oi_R y \<and> [h] = oi_H (column xb)
            \<longrightarrow> analysis draws y back_sel ''mean''
                  = Inr (oi_xa (column xb) (oi_K Pb [Hdot] R) y [h]))"
proof -
  let ?num = "map (\<lambda>row. inner row Hdot) Pb"
  let ?K = "map (\<lambda>x. fl_div x 0) ?num"
  from assms(4) have d: "inner Hdot ?num + R = 0"
    by (simp add: gain_general(1) [OF assms(1,2)])
  have K: "oi_K Pb [Hdot] R = column ?K"
    by (simp only: gain_general(2) [OF assms(1,2)] d)
  have nf: "list_all (\<lambda>k. \<not> is_finite k) ?K"
    by (simp add: list_all_iff fl_div_zero_nonfinite)
  have a: "list_all (list_all (\<lambda>k. \<not> is_finite k)) (oi_K Pb [Hdot] R)"
    by (simp only: K list_all_column nf)
  have b: "length (oi_K Pb [Hdot] R) = length Pb"
    by (simp add: K length_column)
  have xa: "oi_xa (column xb) (oi_K Pb [Hdot] R) y [h] = column (spec_analysis xb ?K y h)"
    by (simp only: K oi_xa_spec)
  have c: "list_all (list_all (\<lambda>v. \<not> is_finite v)) (oi_xa (column xb) (oi_K Pb [Hdot] R) y [h])"
    by (simp only: xa list_all_column spec_analysis_nonfinite [OF nf])
  have e: "length (oi_xa (column xb) (oi_K Pb [Hdot] R) y [h]) = length xb"
    using assms(3) by (simp add: xa length_column length_spec_analysis)
  have f: "analysis draws y back_sel ''mean''
             = Inr (oi_xa (column xb) (oi_K Pb [Hdot] R) y [h])"
    if "get_xb back_sel = Inr xb \<and> Pb = oi_Pb (oi_eb draws (column xb))
        \<and> [Hdot] = oi_Hdot (column xb) \<and> R = oi_R y \<and> [h] = oi_H (column xb)"
    for draws back_sel
  proof -
    from that have g: "get_xb back_sel = Inr xb"
      by blast
    have "back_sel \<noteq> []"
      using get_xb_length [OF g] assms(2,3) by auto
    from analysis_mean [OF g this, of draws y] that show ?thesis
      by simp
  qed
  from a b c e f show ?thesis
    by blast
qed

text \<open>
  Claim C7, witness: a matrix with \<open>Pb \<cdot> Hdot\<^sup>T = (1/2, -1/2)\<close> and a zero denominator
  gives the gain \<open>(+inf, -inf)\<close>; the background \<open>(1, -1)\<close> with draws \<open>1/2\<close> and \<open>y = 0\<close>
  gives an analysis of NaN.
\<close>

theorem zero_denominator_gives_nonfinite_witness:
  "oi_Den [[1/2, 1/2]] (oi_Num [[1, 0], [0, - 1]] [[1/2, 1/2]]) 0 = [[0]]
   \<and> oi_K [[1, 0], [0, - 1]] [[1/2, 1/2]] 0 = [[PInf], [NInf]]
   \<and> oi_xa (column [1, 3]) (oi_K [[1, 0], [0, - 1]] [[1/2, 1/2]] 0) 4 [2] = [[PInf], [NInf]]
   \<and> analysis (\<lambda>_. 1/2) 0 [[PyInt 0, PyInt 0, PyFloat 1], [PyInt 0, PyInt 1, PyFloat (- 1)]] ''mean''
       = Inr [[NaN], [NaN]]"
proof -
  have e: "[0..<2] = [0, Suc 0]"
    by (simp add: upt_rec)
  have d1: "oi_Den [[1/2, 1/2]] (oi_Num [[1, 0], [0, - 1]] [[1/2, 1/2]]) 0 = [[0]]"
    by (simp add: oi_defs)
  note T1 = zero_denominator_gives_nonfinite
    [of "[1/2, 1/2]" "[[1, 0], [0, - 1]]" "[1, 3]" 0 4 2, OF _ _ _ d1]
  have k: "oi_K [[1, 0], [0, - 1]] [[1/2, 1/2]] 0 = [[PInf], [NInf]]"
    by (simp add: oi_defs)
  from T1 have "list_all (list_all (\<lambda>v. \<not> is_finite v))
      (oi_xa (column [1, 3]) (oi_K [[1, 0], [0, - 1]] [[1/2, 1/2]] 0) 4 [2])"
    by simp
  moreover have "oi_xa (column [1, 3]) (oi_K [[1, 0], [0, - 1]] [[1/2, 1/2]] 0) 4 [2]
       = [[PInf], [NInf]]"
    by (simp add: oi_defs)
  moreover have "analysis (\<lambda>_. 1/2) 0 [[PyInt 0, PyInt 0, PyFloat 1], [PyInt 0, PyInt 1, PyFloat (- 1)]] ''mean''
       = Inr [[NaN], [NaN]]"
    by (simp add: oi_defs e)
  ultimately show ?thesis
    using d1 k by simp
qed

text \<open>
  Claim C7, counterexample. On an all-zero background with \<open>y = 0\<close> the denominator is
  zero, and the function returns the analysis NaN; no error is raised.
\<close>

theorem zero_denominator_counterexample:
  "oi_Den (oi_Hdot (column [0]))
     (oi_Num (oi_Pb (oi_eb (\<lambda>_. 1/2) (column [0]))) (oi_Hdot (column [0]))) (oi_R 0) = [[0]]
   \<and> analysis (\<lambda>_. 1/2) 0 [[PyInt 0, PyInt 0, PyFloat 0]] ''mean'' = Inr [[NaN]]"
  by (simp add: oi_defs)

lemma collect_Inr:
  "collect f xs = Inr ys \<Longrightarrow>
     length ys = length xs \<and> (\<forall>k<length xs. f (xs ! k) = Inr (ys ! k))"
proof (induction xs arbitrary: ys)
  case Nil
  then show ?case by simp
next
  case (Cons x xs)
  from Cons.prems obtain y ys' where y: "f x = Inr y" and r: "collect f xs = Inr ys'"
    and ys: "ys = y # ys'"
    by (auto split: sum.splits)
  from Cons.IH [OF r] y show ?case
    by (auto simp: ys nth_Cons split: nat.splits)
qed




lemma get_xb_Inr_lengths:
  "get_xb back_sel = Inr v \<Longrightarrow> \<forall>itm\<in>set back_sel. 2 < length itm"
  by (induction back_sel arbitrary: v) (auto split: if_splits sum.splits)

lemma oi_on_floats_never_returns:
  assumes "sel \<noteq> []"
  shows "optimal_interpolation draws syn y (map (map PyFloat) sel) mf \<noteq> Inr out"
proof
  let ?bs = "map (map PyFloat) sel"
  assume r: "optimal_interpolation draws syn y ?bs mf = Inr out"
  then obtain xa where an: "analysis draws y ?bs mf = Inr xa"
    and ld: "load syn ?bs xa [0..<length ?bs] = Inr out"
    by (auto simp: optimal_interpolation_def split: sum.splits)
  from an obtain v where "get_xb ?bs = Inr v"
    by (auto simp: analysis_def split: sum.splits)
  from get_xb_Inr_lengths [OF this] assms have "2 < length (sel ! 0)"
    by (cases sel) auto
  then have "0 < length (sel ! 0)"
    by (cases "sel ! 0") auto
  then have "?bs ! 0 ! 0 = PyFloat (sel ! 0 ! 0)"
    using assms by (simp add: nth_map)
  then have "add_at syn (?bs ! 0 ! 0) (?bs ! 0 ! 1) (hd (xa ! 0)) = Inl IndexError"
    by (simp add: add_at_def)
  moreover have "[0..<length ?bs] = 0 # [1..<length ?bs]"
    using assms by (cases sel) (simp_all add: upt_rec)
  ultimately show False
    using ld by simp
qed

lemma collect_length: "collect f xs = Inr ys \<Longrightarrow> length ys = length xs"
  using collect_Inr by blast

lemma selected_nonempty:
  assumes "selected ms rec la lo = Inr sel"
  shows "sel \<noteq> []"
proof -
  from assms obtain M where "collect (take_values ms) (np_where M) = Inr sel"
    by (auto simp: selected_def and_then_Inr)
  then have "length sel = length (np_where M)"
    by (rule collect_length)
  moreover have "length (np_where M) = 2"
    by (simp add: np_where_def Let_def)
  ultimately show ?thesis
    by auto
qed

lemma cells_loop_zero:
  "cells_loop d mc ms la lo interp mp syne ks = Inr out \<Longrightarrow> out = syne"
proof (induction ks)
  case Nil
  then show ?case by simp
next
  case (Cons k ks)
  from Cons.prems obtain sel mid where sel: "selected ms (mc ! k) la lo = Inr sel"
    and step: "(if interp = ''Optimal Interpolation''
            then optimal_interpolation (d k) syne (mc ! k ! 2) (map (map PyFloat) sel) mp
            else Inr syne) = Inr mid"
    and rest: "cells_loop d mc ms la lo interp mp mid ks = Inr out"
    by (auto simp: and_then_Inr)
  have "mid = syne"
    using step oi_on_floats_never_returns [OF selected_nonempty [OF sel]]
    by (auto split: if_splits)
  with rest Cons.IH show ?case
    by simp
qed

text \<open>
  Claim C10, what the code does. Line 139 keeps the values of the matched records and
  not their indices, so the items that \<open>processor\<close> hands to \<open>optimal_interpolation\<close> are
  arrays of floats: on a non-empty list of such items the function never returns (it
  raises IndexError at line 23 or at line 71), and whenever \<open>processor\<close> returns, the
  output grid is still all zeros. No analysis element is ever added to the output grid.
\<close>

theorem processor_never_writes:
  "(\<forall>out. processor d coarse smooth c_lat c_lon s_lat s_lon varname interpolation mapping = Inr out
       \<longrightarrow> out = zeros (nrows smooth) (ncols smooth))
   \<and> (\<forall>sel draws syn_prod y map_func out.
         sel \<noteq> [] \<longrightarrow>
         optimal_interpolation draws syn_prod y (map (map PyFloat) sel) map_func \<noteq> Inr out)"
  using oi_on_floats_never_returns
  by (auto simp: processor_def and_then_Inr dest: cells_loop_zero)

text \<open>
  Claim C10, the failing input and a witness. One coarse cell at \<open>(10, 1)\<close> over one fine
  cell at \<open>(10, 2)\<close>: the ratio is \<open>(1, 2)\<close>, the fine record lies in the box and the
  assertion passes, yet the run stops with IndexError and nothing is written. A run
  that returns (an empty coarse grid) gives the zero grid.
\<close>

theorem processor_never_writes_witness:
  "selected [[10, 2, 1]] [10, 1, 2] (NDArray 1 1 [[1]]) (NDArray 1 1 [[2]]) = Inr [[1], [1]]
   \<and> processor (\<lambda>_ _. 0) (NDArray 1 1 [[2]]) (NDArray 1 1 [[1]]) (NDArray 1 1 [[10]])
        (NDArray 1 1 [[1]]) (NDArray 1 1 [[10]]) (NDArray 1 1 [[2]])
        ''chl'' ''Optimal Interpolation'' ''mean''
     = Inl IndexError
   \<and> optimal_interpolation (\<lambda>_. 0) (zeros 1 1) 2 (map (map PyFloat) [[0, 0, 1]]) ''mean''
     = Inl IndexError
   \<and> processor (\<lambda>_ _. 0) (NDArray 0 1 []) (NDArray 1 1 [[1]]) (NDArray 0 1 [])
        (NDArray 0 1 []) (NDArray 1 1 [[10]]) (NDArray 1 1 [[2]])
        ''chl'' ''Optimal Interpolation'' ''mean''
     = Inr (zeros 1 1)"
proof -
  have p: "processor (\<lambda>_ _. 0) (NDArray 0 1 []) (NDArray 1 1 [[1]]) (NDArray 0 1 [])
        (NDArray 0 1 []) (NDArray 1 1 [[10]]) (NDArray 1 1 [[2]])
        ''chl'' ''Optimal Interpolation'' ''mean''
     = Inr (NDArray 1 1 [[Fin 0]])"
    by code_simp
  note T = processor_never_writes [of "\<lambda>_ _. 0" "NDArray 0 1 []" "NDArray 1 1 [[1]]"
      "NDArray 0 1 []" "NDArray 0 1 []" "NDArray 1 1 [[10]]" "NDArray 1 1 [[2]]"
      "''chl''" "''Optimal Interpolation''" "''mean''"]
  from T p have z: "NDArray 1 1 [[Fin 0]] = zeros (nrows (NDArray 1 1 [[1::real]])) (ncols (NDArray 1 1 [[1::real]]))"
    by blast
  have "selected [[10, 2, 1]] [10, 1, 2] (NDArray 1 1 [[1]]) (NDArray 1 1 [[2]]) = Inr [[1], [1]]"
    by code_simp
  moreover have "processor (\<lambda>_ _. 0) (NDArray 1 1 [[2]]) (NDArray 1 1 [[1]]) (NDArray 1 1 [[10]])
        (NDArray 1 1 [[1]]) (NDArray 1 1 [[10]]) (NDArray 1 1 [[2]])
        ''chl'' ''Optimal Interpolation'' ''mean''
     = Inl IndexError"
    by code_simp
  moreover have "optimal_interpolation (\<lambda>_. 0) (zeros 1 1) 2 (map (map PyFloat) [[0, 0, 1]]) ''mean''
     = Inl IndexError"
    by (simp add: oi_defs)
  ultimately show ?thesis
    using p z by simp
qed

end
